theory Spec2Isabelle
  imports Main "HOL-Library.AList" "HOL-Library.Multiset"
begin

section \<open>JSON values and JavaScript objects\<close>

text \<open>
  The handlers of \<^verbatim>\<open>src/app/api/[[...route]]/document.ts\<close> work on untyped data: request
  bodies are whatever \<^verbatim>\<open>c.req.json()\<close> parsed, and the child collections hold whatever
  objects the requests spread into them. A value is therefore a JSON value. Numbers are
  integers: the handlers only test numbers against zero, compare them with \<^verbatim>\<open>===\<close> and add
  two integers. An object is the list of its members in order; \<^verbatim>\<open>undefined\<close> is
  \<open>None\<close> of an \<open>option\<close>.
\<close>

datatype json =
    JNull
  | JBool bool
  | JNum int
  | JStr string
  | JArr "json list"
  | JObj "(string \<times> json) list"

type_synonym jobj = "(string \<times> json) list"

text \<open>\<^verbatim>\<open>if (v)\<close>: the falsy JSON values are null, false, 0 and the empty string.\<close>

fun truthy :: "json \<Rightarrow> bool" where
  "truthy JNull = False"
| "truthy (JBool b) = b"
| "truthy (JNum n) = (n \<noteq> 0)"
| "truthy (JStr s) = (s \<noteq> [])"
| "truthy (JArr xs) = True"
| "truthy (JObj kvs) = True"

text \<open>
  \<^verbatim>\<open>a === b\<close> between a stored value and a freshly parsed one: primitives compare by
  value, objects and arrays by reference, and a parsed object is never the stored one.
\<close>

fun strict_eq :: "json \<Rightarrow> json \<Rightarrow> bool" where
  "strict_eq JNull JNull = True"
| "strict_eq (JBool a) (JBool b) = (a = b)"
| "strict_eq (JNum a) (JNum b) = (a = b)"
| "strict_eq (JStr a) (JStr b) = (a = b)"
| "strict_eq _ _ = False"

text \<open>
  Reading a named property of a parsed value, as the destructuring patterns do. In a
  parsed object the last member of a name wins. None of the names the handlers read is a
  property of a string, an array, a number or a boolean, so those give \<^verbatim>\<open>undefined\<close>;
  destructuring \<^verbatim>\<open>null\<close> throws, which each handler checks before it reads.
\<close>

fun get_prop :: "json \<Rightarrow> string \<Rightarrow> json option" where
  "get_prop (JObj kvs) k = map_of (rev kvs) k"
| "get_prop _ k = None"

text \<open>The decimal name of an array index.\<close>

fun index_key :: "nat \<Rightarrow> string" where
  "index_key n =
     (if n < 10 then [char_of (48 + n)]
      else index_key (n div 10) @ [char_of (48 + n mod 10)])"

declare index_key.simps [simp del]

text \<open>
  The own enumerable properties that a spread \<^verbatim>\<open>...v\<close> or a rest pattern copies: the
  members of an object, the indexed elements of an array, the indexed characters of a
  string, and nothing for the other primitives.
\<close>

fun own_props :: "json \<Rightarrow> jobj" where
  "own_props (JObj kvs) = kvs"
| "own_props (JArr xs) = zip (map index_key [0..<length xs]) xs"
| "own_props (JStr s) = zip (map index_key [0..<length s]) (map (\<lambda>c. JStr [c]) s)"
| "own_props _ = []"

text \<open>
  \<^verbatim>\<open>{ ...target, ...src }\<close>: the members of \<open>src\<close> are written into \<open>target\<close> from left
  to right, so that of two members of one name the later one stands. A stored object is
  only ever read by name (\<open>map_of\<close>); the order of its members plays no role.
\<close>

definition assign :: "jobj \<Rightarrow> jobj \<Rightarrow> jobj" where
  "assign target src = fold (\<lambda>(k, v). AList.update k v) src target"

text \<open>\<^verbatim>\<open>const { id, ...data } = item\<close>: the rest of the item's own properties.\<close>

definition rest_without_id :: "json \<Rightarrow> jobj" where
  "rest_without_id item = AList.delete ''id'' (own_props item)"

text \<open>\<^verbatim>\<open>Array.prototype.findIndex\<close>, with \<open>None\<close> for \<^verbatim>\<open>-1\<close>.\<close>

fun findIndex :: "('a \<Rightarrow> bool) \<Rightarrow> 'a list \<Rightarrow> nat option" where
  "findIndex P [] = None"
| "findIndex P (x # xs) = (if P x then Some 0 else map_option Suc (findIndex P xs))"

section \<open>The store\<close>

text \<open>
  A document is only ever built by the create handler, so its members are fixed: a record.
  The update handler can put any truthy JSON value into the six scalar members, four of
  which a new document does not have. \<^verbatim>\<open>createdAt\<close> and \<^verbatim>\<open>updatedAt\<close> hold the string
  \<^verbatim>\<open>new Date().toISOString()\<close>; the record holds the instant in milliseconds that the
  string denotes, which is what \<^verbatim>\<open>new Date(s).getTime()\<close> reads back.
\<close>

record document =
  id' :: int
  title :: json
  userId :: string
  documentId :: string
  authorName :: string
  authorEmail :: string
  status :: json
  createdAt :: int
  updatedAt :: int
  thumbnail :: "json option"
  summary :: "json option"
  themeColor :: "json option"
  currentPosition :: "json option"

text \<open>
  The route handlers run on the server, where \<^verbatim>\<open>window\<close> is undefined: \<^verbatim>\<open>getStorage\<close>
  and \<^verbatim>\<open>setStorage\<close> read and write \<^verbatim>\<open>serverStorage\<close>, and the middleware
  \<^verbatim>\<open>initStorage\<close> has put an array under each of the five keys. The arrays are shared,
  so a handler's writes into them are in the store as soon as they are made.
\<close>

record store =
  documents :: "document list"
  personalInfo :: "jobj list"
  experience :: "jobj list"
  education :: "jobj list"
  skills :: "jobj list"

definition initStorage :: store where
  "initStorage = \<lparr>documents = [], personalInfo = [], experience = [], education = [], skills = []\<rparr>"

text \<open>The user that the middleware \<^verbatim>\<open>getAuthUser\<close> has put into the context.\<close>

record user =
  user_id :: string
  given_name :: string
  family_name :: "string option"
  email :: "string option"

datatype coll = Experience | Education | Skills

text \<open>
  What a request reads from outside the program: \<open>timestamp\<close> is the instant of
  \<^verbatim>\<open>new Date()\<close>, \<open>date_now\<close> the value of \<^verbatim>\<open>Date.now()\<close> that becomes a document's or
  a personal-info record's id, and \<open>item_now c k\<close>, \<open>item_random c k\<close> the values of
  \<^verbatim>\<open>Date.now()\<close> and of \<^verbatim>\<open>Math.floor(Math.random() * 1000)\<close> in round \<open>k\<close> of the loop over
  collection \<open>c\<close>. \<open>uuid\<close> is what \<^verbatim>\<open>generateDocUUID()\<close> returned.
\<close>

record env =
  uuid :: string
  timestamp :: int
  date_now :: int
  item_now :: "coll \<Rightarrow> nat \<Rightarrow> int"
  item_random :: "coll \<Rightarrow> nat \<Rightarrow> int"

text \<open>The failures a handler answers with, and their HTTP status.\<close>

datatype failure = DocumentIdRequired | InvalidState | NotFound | Unauthorized | Unexpected

fun status_code :: "failure \<Rightarrow> nat" where
  "status_code DocumentIdRequired = 400"
| "status_code InvalidState = 400"
| "status_code NotFound = 404"
| "status_code Unauthorized = 401"
| "status_code Unexpected = 500"

section \<open>POST /create\<close>

text \<open>
  Modelled from the spec: \<^verbatim>\<open>generateDocUUID\<close> lives in \<^verbatim>\<open>@/lib/helper\<close>, which is not
  among the sources. The spec says that create "generates a new documentId", that
  "documentId is globally unique" and that there is "no duplicate check beyond uniqueness
  of generated id": the generated id is the documentId of no stored document.
\<close>

definition generated_unique :: "string \<Rightarrow> document list \<Rightarrow> bool" where
  "generated_unique u docs = (u \<notin> set (map documentId docs))"

definition newDoc :: "env \<Rightarrow> user \<Rightarrow> json \<Rightarrow> document" where
  "newDoc e u t =
     \<lparr>id' = date_now e,
      title = t,
      userId = user_id u,
      documentId = uuid e,
      authorName = given_name u @ '' '' @ (case family_name u of Some f \<Rightarrow> f | None \<Rightarrow> []),
      authorEmail = (case email u of Some m \<Rightarrow> m | None \<Rightarrow> []),
      status = JStr ''private'',
      createdAt = timestamp e,
      updatedAt = timestamp e,
      thumbnail = None, summary = None, themeColor = None, currentPosition = None\<rparr>"

definition create :: "env \<Rightarrow> user \<Rightarrow> json \<Rightarrow> store \<Rightarrow> document \<times> store" where
  "create e u t s = (newDoc e u t, s\<lparr>documents := documents s @ [newDoc e u t]\<rparr>)"

section \<open>PATCH /update/:documentId\<close>

text \<open>\<^verbatim>\<open>if (v) doc.f = v\<close>, for a member every document has and for an optional one.\<close>

definition overwrite :: "json option \<Rightarrow> json \<Rightarrow> json" where
  "overwrite incoming stored =
     (case incoming of Some v \<Rightarrow> if truthy v then v else stored | None \<Rightarrow> stored)"

definition overwrite_opt :: "json option \<Rightarrow> json option \<Rightarrow> json option" where
  "overwrite_opt incoming stored =
     (case incoming of Some v \<Rightarrow> if truthy v then Some v else stored | None \<Rightarrow> stored)"

definition update_scalars :: "env \<Rightarrow> json \<Rightarrow> document \<Rightarrow> document" where
  "update_scalars e updateData doc =
     doc\<lparr>title := overwrite (get_prop updateData ''title'') (title doc),
         thumbnail := overwrite_opt (get_prop updateData ''thumbnail'') (thumbnail doc),
         summary := overwrite_opt (get_prop updateData ''summary'') (summary doc),
         themeColor := overwrite_opt (get_prop updateData ''themeColor'') (themeColor doc),
         status := overwrite (get_prop updateData ''status'') (status doc),
         currentPosition :=
           overwrite_opt (get_prop updateData ''currentPosition'') (currentPosition doc),
         updatedAt := timestamp e\<rparr>"

definition upsert_personalInfo :: "env \<Rightarrow> int \<Rightarrow> json \<Rightarrow> jobj list \<Rightarrow> jobj list" where
  "upsert_personalInfo e docid p items =
     (case findIndex (\<lambda>info. map_of info ''docId'' = Some (JNum docid)) items of
        Some i \<Rightarrow> items[i := assign (items ! i) (own_props p)]
      | None \<Rightarrow>
          items @ [assign [(''id'', JNum (date_now e)), (''docId'', JNum docid)] (own_props p)])"

text \<open>\<^verbatim>\<open>item.id === id && item.docId === existingDocument.id\<close>\<close>

definition matches :: "json \<Rightarrow> int \<Rightarrow> jobj \<Rightarrow> bool" where
  "matches i docid item =
     ((case map_of item ''id'' of Some v \<Rightarrow> strict_eq v i | None \<Rightarrow> False)
      \<and> map_of item ''docId'' = Some (JNum docid))"

text \<open>
  One round of the loop over an incoming array; the handler has the same loop three
  times, for experience, education and skills. \<open>None\<close> is the TypeError of destructuring
  \<^verbatim>\<open>null\<close>.
\<close>

definition update_item :: "env \<Rightarrow> coll \<Rightarrow> int \<Rightarrow> nat \<Rightarrow> jobj list \<Rightarrow> json \<Rightarrow> jobj list option" where
  "update_item e c docid k items item =
     (if item = JNull then None
      else case get_prop item ''id'' of
        Some i \<Rightarrow>
          (case findIndex (matches i docid) items of
             Some n \<Rightarrow> Some (items[n := assign (items ! n) (rest_without_id item)])
           | None \<Rightarrow> Some items)
      | None \<Rightarrow>
          Some (items @ [assign [(''id'', JNum (item_now e c k + item_random e c k)),
                                 (''docId'', JNum docid)] (rest_without_id item)]))"

text \<open>
  The loop. It returns whether it ran to its end and the collection as it then is: a
  throw leaves the rounds already made in the shared array.
\<close>

fun update_items :: "env \<Rightarrow> coll \<Rightarrow> int \<Rightarrow> nat \<Rightarrow> jobj list \<Rightarrow> json list \<Rightarrow> bool \<times> jobj list" where
  "update_items e c docid k items [] = (True, items)"
| "update_items e c docid k items (item # rest) =
     (case update_item e c docid k items item of
        None \<Rightarrow> (False, items)
      | Some items' \<Rightarrow> update_items e c docid (Suc k) items' rest)"

text \<open>\<^verbatim>\<open>if (xs && Array.isArray(xs)) for (const item of xs) ...\<close>\<close>

definition update_collection ::
  "env \<Rightarrow> coll \<Rightarrow> int \<Rightarrow> json option \<Rightarrow> jobj list \<Rightarrow> bool \<times> jobj list" where
  "update_collection e c docid incoming items =
     (case incoming of Some (JArr xs) \<Rightarrow> update_items e c docid 0 items xs | _ \<Rightarrow> (True, items))"

definition update_personalInfo :: "env \<Rightarrow> int \<Rightarrow> json \<Rightarrow> store \<Rightarrow> store" where
  "update_personalInfo e docid updateData s =
     (case get_prop updateData ''personalInfo'' of
        Some p \<Rightarrow>
          if truthy p then s\<lparr>personalInfo := upsert_personalInfo e docid p (personalInfo s)\<rparr>
          else s
      | None \<Rightarrow> s)"

text \<open>The handler from the destructuring of the body on, for the document at index \<open>i\<close>.\<close>

definition update_found :: "env \<Rightarrow> nat \<Rightarrow> json \<Rightarrow> store \<Rightarrow> (failure + unit) \<times> store" where
  "update_found e i updateData s =
     (let docid = id' (documents s ! i);
          s1 = s\<lparr>documents := (documents s)[i := update_scalars e updateData (documents s ! i)]\<rparr>;
          s2 = update_personalInfo e docid updateData s1;
          r3 = update_collection e Experience docid (get_prop updateData ''experience'') (experience s2);
          s3 = s2\<lparr>experience := snd r3\<rparr>
      in if \<not> fst r3 then (Inl Unexpected, s3)
         else
           let r4 = update_collection e Education docid (get_prop updateData ''education'') (education s3);
               s4 = s3\<lparr>education := snd r4\<rparr>
           in if \<not> fst r4 then (Inl Unexpected, s4)
              else
                let r5 = update_collection e Skills docid (get_prop updateData ''skills'') (skills s4);
                    s5 = s4\<lparr>skills := snd r5\<rparr>
                in if \<not> fst r5 then (Inl Unexpected, s5) else (Inr (), s5))"

text \<open>
  The handler. \<open>updateData\<close> is the parsed body. The guard on the path parameter and
  the lookup come first; then the body is destructured, which throws on \<^verbatim>\<open>null\<close>. A throw
  is caught at the end of the handler and answered with 500.
\<close>

definition update :: "env \<Rightarrow> user \<Rightarrow> string \<Rightarrow> json \<Rightarrow> store \<Rightarrow> (failure + unit) \<times> store" where
  "update e u docId updateData s =
     (if docId = [] then (Inl DocumentIdRequired, s)
      else case findIndex (\<lambda>doc. documentId doc = docId \<and> userId doc = user_id u) (documents s) of
        None \<Rightarrow> (Inl NotFound, s)
      | Some i \<Rightarrow>
          if updateData = JNull then (Inl Unexpected, s)
          else update_found e i updateData s)"

section \<open>PATCH /restore/archive\<close>

text \<open>
  The body is destructured first (a throw on \<^verbatim>\<open>null\<close>); then come the guard on
  \<^verbatim>\<open>documentId\<close>, the guard on \<^verbatim>\<open>status\<close> and the lookup.
\<close>

definition restoreFromArchive :: "env \<Rightarrow> user \<Rightarrow> json \<Rightarrow> store \<Rightarrow> (failure + document) \<times> store" where
  "restoreFromArchive e u body s =
     (if body = JNull then (Inl Unexpected, s)
      else if \<not> (case get_prop body ''documentId'' of Some v \<Rightarrow> truthy v | None \<Rightarrow> False)
        then (Inl DocumentIdRequired, s)
      else if get_prop body ''status'' \<noteq> Some (JStr ''archived'') then (Inl InvalidState, s)
      else case findIndex (\<lambda>doc. get_prop body ''documentId'' = Some (JStr (documentId doc))
                               \<and> userId doc = user_id u
                               \<and> status doc = JStr ''archived'') (documents s) of
        None \<Rightarrow> (Inl NotFound, s)
      | Some i \<Rightarrow>
          let doc = (documents s ! i)\<lparr>status := JStr ''private'', updatedAt := timestamp e\<rparr>
          in (Inr doc, s\<lparr>documents := (documents s)[i := doc]\<rparr>))"

section \<open>GET /all and GET /trash/all\<close>

text \<open>
  \<^verbatim>\<open>Array.prototype.sort\<close> with a comparator: a stable sort that puts \<open>a\<close> before \<open>b\<close>
  when \<open>cmp a b\<close> is not positive.
\<close>

fun insert_cmp :: "('a \<Rightarrow> 'a \<Rightarrow> int) \<Rightarrow> 'a \<Rightarrow> 'a list \<Rightarrow> 'a list" where
  "insert_cmp cmp x [] = [x]"
| "insert_cmp cmp x (y # ys) = (if cmp x y \<le> 0 then x # y # ys else y # insert_cmp cmp x ys)"

definition sort_cmp :: "('a \<Rightarrow> 'a \<Rightarrow> int) \<Rightarrow> 'a list \<Rightarrow> 'a list" where
  "sort_cmp cmp xs = foldr (insert_cmp cmp) xs []"

definition listActive :: "user \<Rightarrow> store \<Rightarrow> document list" where
  "listActive u s =
     sort_cmp (\<lambda>a b. updatedAt b - updatedAt a)
       (filter (\<lambda>doc. userId doc = user_id u \<and> status doc \<noteq> JStr ''archived'') (documents s))"

definition listArchived :: "user \<Rightarrow> store \<Rightarrow> document list" where
  "listArchived u s =
     filter (\<lambda>doc. userId doc = user_id u \<and> status doc = JStr ''archived'') (documents s)"

section \<open>GET /public/doc/:documentId\<close>

text \<open>
  The handler's context \<^verbatim>\<open>c\<close>. The route has no \<^verbatim>\<open>getAuthUser\<close> in front of it, so the
  context may or may not hold a user.
\<close>

record ctx =
  ctx_user :: "user option"
  param_documentId :: string

record aggregate =
  agg_document :: document
  agg_personalInfo :: "jobj option"
  experiences :: "jobj list"
  educations :: "jobj list"
  agg_skills :: "jobj list"

definition join :: "document \<Rightarrow> store \<Rightarrow> aggregate" where
  "join doc s =
     \<lparr>agg_document = doc,
      agg_personalInfo = find (\<lambda>info. map_of info ''docId'' = Some (JNum (id' doc))) (personalInfo s),
      experiences = filter (\<lambda>x. map_of x ''docId'' = Some (JNum (id' doc))) (experience s),
      educations = filter (\<lambda>x. map_of x ''docId'' = Some (JNum (id' doc))) (education s),
      agg_skills = filter (\<lambda>x. map_of x ''docId'' = Some (JNum (id' doc))) (skills s)\<rparr>"

definition getPublic :: "ctx \<Rightarrow> store \<Rightarrow> failure + aggregate" where
  "getPublic c s =
     (case find (\<lambda>doc. documentId doc = param_documentId c \<and> status doc = JStr ''public'')
             (documents s) of
        None \<Rightarrow> Inl Unauthorized
      | Some doc \<Rightarrow> Inr (join doc s))"

section \<open>Reading the store\<close>

text \<open>
  The six scalar members that the update handler may overwrite, and the read
  \<^verbatim>\<open>doc[name]\<close> of one of them (\<open>None\<close> where the document does not have the member).
\<close>

definition scalar_fields :: "string list" where
  "scalar_fields =
     [''title'', ''thumbnail'', ''summary'', ''themeColor'', ''status'', ''currentPosition'']"

definition doc_prop :: "document \<Rightarrow> string \<Rightarrow> json option" where
  "doc_prop doc name =
     (if name = ''title'' then Some (title doc)
      else if name = ''thumbnail'' then thumbnail doc
      else if name = ''summary'' then summary doc
      else if name = ''themeColor'' then themeColor doc
      else if name = ''status'' then Some (status doc)
      else if name = ''currentPosition'' then currentPosition doc
      else None)"

text \<open>
  The handler's three loops differ only in the collection: its key in the body and its
  array in the store. \<open>incoming body c\<close> is the array the loop for \<open>c\<close> runs over,
  empty when the body has no array under that key.
\<close>

fun coll_name :: "coll \<Rightarrow> string" where
  "coll_name Experience = ''experience''"
| "coll_name Education = ''education''"
| "coll_name Skills = ''skills''"


definition incoming :: "json \<Rightarrow> coll \<Rightarrow> json list" where
  "incoming body c = (case get_prop body (coll_name c) of Some (JArr xs) \<Rightarrow> xs | _ \<Rightarrow> [])"

text \<open>
  A sequence of update requests, each with what it reads from outside, and the stores
  it goes through: the store before the first request, then the store after each one.
\<close>

type_synonym update_request = "env \<times> user \<times> string \<times> json"

fun updates :: "update_request list \<Rightarrow> store \<Rightarrow> store list" where
  "updates [] s = [s]"
| "updates (r # rs) s =
     s # updates rs (snd (update (fst r) (fst (snd r)) (fst (snd (snd r))) (snd (snd (snd r))) s))"

section \<open>A small store\<close>

text \<open>
  Two documents of user \<open>u1\<close>, one of them archived, and a public document of user
  \<open>u2\<close>; no child records yet.
\<close>

definition ex_user :: user where
  "ex_user = \<lparr>user_id = ''u1'', given_name = ''Ada'', family_name = None, email = None\<rparr>"

definition ex_env :: env where
  "ex_env = \<lparr>uuid = ''d9'', timestamp = 50, date_now = 51,
             item_now = (\<lambda>c k. 52), item_random = (\<lambda>c k. int k)\<rparr>"

definition ex_doc :: document where
  "ex_doc = \<lparr>id' = 1, title = JStr ''cv'', userId = ''u1'', documentId = ''d1'',
             authorName = ''Ada '', authorEmail = [], status = JStr ''private'',
             createdAt = 10, updatedAt = 10,
             thumbnail = None, summary = None, themeColor = None, currentPosition = None\<rparr>"

definition ex_store :: store where
  "ex_store =
     \<lparr>documents =
        [ex_doc,
         ex_doc\<lparr>id' := 2, documentId := ''d2'', status := JStr ''archived'', updatedAt := 20\<rparr>,
         ex_doc\<lparr>id' := 3, documentId := ''d3'', userId := ''u2'', status := JStr ''public'',
                updatedAt := 30\<rparr>],
      personalInfo = [], experience = [], education = [], skills = []\<rparr>"

text \<open>The same store with child records for documents 1, 2 and 3.\<close>

definition ex_children :: store where
  "ex_children =
     ex_store\<lparr>personalInfo :=
                 [[(''id'', JNum 8), (''docId'', JNum 1), (''name'', JStr ''Ada'')],
                  [(''id'', JNum 7), (''docId'', JNum 3), (''name'', JStr ''Bo'')]],
               experience :=
                 [[(''id'', JNum 11), (''docId'', JNum 3), (''title'', JStr ''dev'')],
                  [(''id'', JNum 12), (''docId'', JNum 1), (''title'', JStr ''ops'')],
                  [(''id'', JNum 13), (''docId'', JNum 3), (''title'', JStr ''lead'')]],
               education := [[(''id'', JNum 21), (''docId'', JNum 3)]],
               skills := [[(''id'', JNum 31), (''docId'', JNum 2)]]\<rparr>"

section \<open>Auxiliary facts\<close>

lemma findIndex_Some: "findIndex P xs = Some i \<Longrightarrow> i < length xs \<and> P (xs ! i)"
  by (induction xs arbitrary: i) (auto split: if_splits)

lemma findIndex_None: "findIndex P xs = None \<longleftrightarrow> (\<forall>x\<in>set xs. \<not> P x)"
  by (induction xs) auto



lemma documents_update_found:
  "documents (snd (update_found e i b s)) = (documents s)[i := update_scalars e b (documents s ! i)]"
  by (simp add: update_found_def Let_def update_personalInfo_def split: option.splits)





lemma fst_update_found:
  "fst (update_found e i b s) =
     (if fst (update_collection e Experience (id' (documents s ! i)) (get_prop b ''experience'')
                (experience s))
       \<and> fst (update_collection e Education (id' (documents s ! i)) (get_prop b ''education'')
                (education s))
       \<and> fst (update_collection e Skills (id' (documents s ! i)) (get_prop b ''skills'') (skills s))
      then Inr () else Inl Unexpected)"
  by (simp add: update_found_def Let_def update_personalInfo_def split: option.splits)

lemma documents_update:
  "documents (snd (update e u d b s)) =
     (case findIndex (\<lambda>doc. documentId doc = d \<and> userId doc = user_id u) (documents s) of
        Some i \<Rightarrow> if d \<noteq> [] \<and> b \<noteq> JNull
                  then (documents s)[i := update_scalars e b (documents s ! i)] else documents s
      | None \<Rightarrow> documents s)"
  by (simp add: update_def documents_update_found split: option.splits)

section \<open>Properties of the handlers\<close>

text \<open>
  C10. When the update handler's lookup by documentId and userId finds no document, in
  particular when the document belongs to another user, it answers NotFound (404) and
  the store it returns is the store it was given: none of the five collections is
  modified. The lookup runs for a path parameter that is not empty.
\<close>

theorem update_not_found_atomic:
  assumes "docId \<noteq> []"
    and "\<forall>doc\<in>set (documents s). \<not> (documentId doc = docId \<and> userId doc = user_id u)"
  shows "update e u docId body s = (Inl NotFound, s) \<and> status_code NotFound = 404"
proof -
  have "findIndex (\<lambda>doc. documentId doc = docId \<and> userId doc = user_id u) (documents s) = None"
    using assms(2) by (simp add: findIndex_None)
  with assms(1) show ?thesis
    by (simp add: update_def)
qed

theorem update_not_found_atomic_witness:
  "update ex_env ex_user ''d3'' (JObj [(''title'', JStr ''mine'')]) ex_store = (Inl NotFound, ex_store)
   \<and> userId (documents ex_store ! 2) \<noteq> user_id ex_user
   \<and> documentId (documents ex_store ! 2) = ''d3''"
  using update_not_found_atomic [of "''d3''" ex_store ex_user ex_env "JObj [(''title'', JStr ''mine'')]"]
  by (simp add: ex_store_def ex_user_def ex_doc_def)

text \<open>
  C8. For every user and title, create appends one new record to the documents
  collection, leaves the other collections alone and returns that record: its status is
  "private", its userId the caller's id, its title the given title, and createdAt equals
  updatedAt. Its documentId is the generated one; when the generator keeps its promise
  of a new id, no stored document has that documentId, and documentIds that were
  distinct stay distinct.
\<close>

theorem create_appends_private_document:
  assumes "generated_unique (uuid e) (documents s)"
  shows "snd (create e u t s) = s\<lparr>documents := documents s @ [fst (create e u t s)]\<rparr>
     \<and> status (fst (create e u t s)) = JStr ''private''
     \<and> userId (fst (create e u t s)) = user_id u
     \<and> title (fst (create e u t s)) = t
     \<and> documentId (fst (create e u t s)) = uuid e
     \<and> (\<forall>doc\<in>set (documents s). documentId doc \<noteq> documentId (fst (create e u t s)))
     \<and> (distinct (map documentId (documents s))
          \<longrightarrow> distinct (map documentId (documents (snd (create e u t s)))))
     \<and> createdAt (fst (create e u t s)) = updatedAt (fst (create e u t s))"
proof -
  have notin: "uuid e \<notin> documentId ` set (documents s)"
    using assms by (simp add: generated_unique_def)
  then have fresh: "\<forall>doc\<in>set (documents s). documentId doc \<noteq> uuid e"
    by (metis image_eqI)
  show ?thesis
    using notin fresh by (simp add: create_def newDoc_def)
qed

theorem create_appends_private_document_witness:
  "generated_unique (uuid ex_env) (documents ex_store)
   \<and> length (documents (snd (create ex_env ex_user (JStr ''cv 2'') ex_store))) = 4
   \<and> documents (snd (create ex_env ex_user (JStr ''cv 2'') ex_store)) ! 3
       = fst (create ex_env ex_user (JStr ''cv 2'') ex_store)
   \<and> status (fst (create ex_env ex_user (JStr ''cv 2'') ex_store)) = JStr ''private''
   \<and> documentId (fst (create ex_env ex_user (JStr ''cv 2'') ex_store)) = ''d9''"
proof -
  have h: "generated_unique (uuid ex_env) (documents ex_store)"
    by (simp add: generated_unique_def ex_env_def ex_store_def ex_doc_def)
  show ?thesis
    using h create_appends_private_document [OF h, of ex_user "JStr ''cv 2''"]
    by (simp add: ex_store_def ex_env_def)
qed

lemma find_Some_set: "find P xs = Some x \<Longrightarrow> x \<in> set xs \<and> P x"
  by (induction xs) (auto split: if_splits)

text \<open>
  C4. getPublic answers with a joined aggregate exactly when some document has the given
  documentId and status "public". The aggregate then holds the first such document, the
  first personalInfo record whose docId is that document's internal id (none if there
  is none), and exactly the experience, education and skills records whose docId is
  that id, in stored order. When every document of that documentId has another status,
  or there is none, it answers Unauthorized (401). The answer does not depend on the
  caller: whatever user the context holds, or none, the answer is the same.
\<close>

theorem getPublic_public_only:
  "((\<exists>a. getPublic c s = Inr a) \<longleftrightarrow>
      (\<exists>doc\<in>set (documents s). documentId doc = param_documentId c \<and> status doc = JStr ''public''))
   \<and> (\<forall>a. getPublic c s = Inr a \<longrightarrow>
        (\<exists>doc\<in>set (documents s). documentId doc = param_documentId c \<and> status doc = JStr ''public''
            \<and> a = join doc s))
   \<and> (\<forall>a. getPublic c s = Inr a \<longrightarrow>
        find (\<lambda>doc. documentId doc = param_documentId c \<and> status doc = JStr ''public'') (documents s)
          = Some (agg_document a)
        \<and> agg_personalInfo a =
            find (\<lambda>info. map_of info ''docId'' = Some (JNum (id' (agg_document a)))) (personalInfo s)
        \<and> experiences a =
            filter (\<lambda>x. map_of x ''docId'' = Some (JNum (id' (agg_document a)))) (experience s)
        \<and> educations a =
            filter (\<lambda>x. map_of x ''docId'' = Some (JNum (id' (agg_document a)))) (education s)
        \<and> agg_skills a =
            filter (\<lambda>x. map_of x ''docId'' = Some (JNum (id' (agg_document a)))) (skills s))
   \<and> ((\<forall>doc\<in>set (documents s). documentId doc = param_documentId c \<longrightarrow> status doc \<noteq> JStr ''public'')
        \<longrightarrow> getPublic c s = Inl Unauthorized \<and> status_code Unauthorized = 401)
   \<and> getPublic (c\<lparr>ctx_user := w\<rparr>) s = getPublic c s"
proof -
  let ?P = "\<lambda>doc. documentId doc = param_documentId c \<and> status doc = JStr ''public''"
  show ?thesis
  proof (cases "find ?P (documents s)")
    case None
    then have "\<forall>doc\<in>set (documents s). \<not> ?P doc"
      by (simp add: find_None_iff)
    with None show ?thesis
      by (auto simp: getPublic_def)
  next
    case (Some d)
    then have "d \<in> set (documents s) \<and> ?P d"
      by (rule find_Some_set)
    with Some show ?thesis
      by (auto simp: getPublic_def join_def)
  qed
qed

theorem getPublic_public_only_witness:
  "getPublic \<lparr>ctx_user = Some ex_user, param_documentId = ''d3''\<rparr> ex_children
     = Inr \<lparr>agg_document = documents ex_store ! 2,
            agg_personalInfo = Some [(''id'', JNum 7), (''docId'', JNum 3), (''name'', JStr ''Bo'')],
            experiences = [[(''id'', JNum 11), (''docId'', JNum 3), (''title'', JStr ''dev'')],
                           [(''id'', JNum 13), (''docId'', JNum 3), (''title'', JStr ''lead'')]],
            educations = [[(''id'', JNum 21), (''docId'', JNum 3)]],
            agg_skills = []\<rparr>
   \<and> getPublic \<lparr>ctx_user = None, param_documentId = ''d3''\<rparr> ex_children
     = getPublic \<lparr>ctx_user = Some ex_user, param_documentId = ''d3''\<rparr> ex_children
   \<and> getPublic \<lparr>ctx_user = Some ex_user, param_documentId = ''d1''\<rparr> ex_children = Inl Unauthorized
   \<and> getPublic \<lparr>ctx_user = Some ex_user, param_documentId = ''d0''\<rparr> ex_children = Inl Unauthorized"
proof -
  let ?c3 = "\<lparr>ctx_user = Some ex_user, param_documentId = ''d3''\<rparr>"
  let ?c1 = "\<lparr>ctx_user = Some ex_user, param_documentId = ''d1''\<rparr>"
  let ?c0 = "\<lparr>ctx_user = Some ex_user, param_documentId = ''d0''\<rparr>"
  have docs: "documents ex_children = documents ex_store"
    by (simp add: ex_children_def)
  have pub: "\<exists>doc\<in>set (documents ex_children).
      documentId doc = param_documentId ?c3 \<and> status doc = JStr ''public''"
    by (simp add: docs ex_store_def ex_doc_def)
  then obtain a where a: "getPublic ?c3 ex_children = Inr a"
    using getPublic_public_only [of ?c3 ex_children None] by blast
  have first: "find (\<lambda>doc. documentId doc = param_documentId ?c3 \<and> status doc = JStr ''public'')
      (documents ex_children) = Some (documents ex_store ! 2)"
    by (simp add: docs ex_store_def ex_doc_def)
  have parts: "agg_document a = documents ex_store ! 2
      \<and> agg_personalInfo a =
            find (\<lambda>info. map_of info ''docId'' = Some (JNum (id' (agg_document a)))) (personalInfo ex_children)
      \<and> experiences a =
            filter (\<lambda>x. map_of x ''docId'' = Some (JNum (id' (agg_document a)))) (experience ex_children)
      \<and> educations a =
            filter (\<lambda>x. map_of x ''docId'' = Some (JNum (id' (agg_document a)))) (education ex_children)
      \<and> agg_skills a =
            filter (\<lambda>x. map_of x ''docId'' = Some (JNum (id' (agg_document a)))) (skills ex_children)"
    using getPublic_public_only [of ?c3 ex_children None] a first by simp
  have i3: "id' (documents ex_store ! 2) = 3"
    by (simp add: ex_store_def ex_doc_def)
  have "a = \<lparr>agg_document = documents ex_store ! 2,
            agg_personalInfo = Some [(''id'', JNum 7), (''docId'', JNum 3), (''name'', JStr ''Bo'')],
            experiences = [[(''id'', JNum 11), (''docId'', JNum 3), (''title'', JStr ''dev'')],
                           [(''id'', JNum 13), (''docId'', JNum 3), (''title'', JStr ''lead'')]],
            educations = [[(''id'', JNum 21), (''docId'', JNum 3)]],
            agg_skills = []\<rparr>"
    using parts i3 by (cases a) (simp add: ex_children_def)
  with a have r3: "getPublic ?c3 ex_children
     = Inr \<lparr>agg_document = documents ex_store ! 2,
            agg_personalInfo = Some [(''id'', JNum 7), (''docId'', JNum 3), (''name'', JStr ''Bo'')],
            experiences = [[(''id'', JNum 11), (''docId'', JNum 3), (''title'', JStr ''dev'')],
                           [(''id'', JNum 13), (''docId'', JNum 3), (''title'', JStr ''lead'')]],
            educations = [[(''id'', JNum 21), (''docId'', JNum 3)]],
            agg_skills = []\<rparr>"
    by simp
  have same: "getPublic \<lparr>ctx_user = None, param_documentId = ''d3''\<rparr> ex_children
     = getPublic ?c3 ex_children"
    using getPublic_public_only [of ?c3 ex_children None] by simp
  have r1: "getPublic ?c1 ex_children = Inl Unauthorized"
    using getPublic_public_only [of ?c1 ex_children None]
    by (simp add: docs ex_store_def ex_doc_def)
  have r0: "getPublic ?c0 ex_children = Inl Unauthorized"
    using getPublic_public_only [of ?c0 ex_children None]
    by (simp add: docs ex_store_def ex_doc_def)
  from r3 same r1 r0 show ?thesis by simp
qed

lemma mset_insert_cmp: "mset (insert_cmp cmp x xs) = add_mset x (mset xs)"
  by (induction xs) auto

lemma mset_sort_cmp: "mset (sort_cmp cmp xs) = mset xs"
  by (induction xs) (auto simp: sort_cmp_def mset_insert_cmp)

lemma set_insert_cmp: "set (insert_cmp cmp x xs) = insert x (set xs)"
  by (induction xs) auto

lemma sorted_insert_cmp:
  "sorted_wrt (\<lambda>a b. key b \<le> key a) xs \<Longrightarrow>
   sorted_wrt (\<lambda>a b. key b \<le> key a) (insert_cmp (\<lambda>a b. key b - key a) x xs)"
  for key :: "'a \<Rightarrow> int"
  by (induction xs) (auto simp: set_insert_cmp)

lemma sorted_sort_cmp:
  "sorted_wrt (\<lambda>a b. key b \<le> key a) (sort_cmp (\<lambda>a b. key b - key a) xs)"
  for key :: "'a \<Rightarrow> int"
proof (induction xs)
  case Nil
  then show ?case by (simp add: sort_cmp_def)
next
  case (Cons x xs)
  then show ?case
    using sorted_insert_cmp [of key "sort_cmp (\<lambda>a b. key b - key a) xs" x]
    by (simp add: sort_cmp_def)
qed

text \<open>
  C5. For every caller, listActive returns exactly the documents whose userId is the
  caller's id and whose status is not "archived", each as often as it is stored, and
  the list is sorted by updatedAt in descending order: of two documents in it, the
  earlier one was updated no earlier than the later one.
\<close>

theorem listActive_sorted_filter:
  "mset (listActive u s) =
     filter_mset (\<lambda>doc. userId doc = user_id u \<and> status doc \<noteq> JStr ''archived'') (mset (documents s))
   \<and> sorted_wrt (\<lambda>a b. updatedAt b \<le> updatedAt a) (listActive u s)"
  by (simp add: listActive_def mset_sort_cmp sorted_sort_cmp)

theorem listActive_sorted_filter_witness:
  "listActive ex_user (ex_store\<lparr>documents := documents ex_store @ [ex_doc\<lparr>documentId := ''d4'', updatedAt := 40\<rparr>]\<rparr>)
     = [ex_doc\<lparr>documentId := ''d4'', updatedAt := 40\<rparr>, ex_doc]
   \<and> sorted_wrt (\<lambda>a b. updatedAt b \<le> updatedAt a)
       (listActive ex_user (ex_store\<lparr>documents := documents ex_store @ [ex_doc\<lparr>documentId := ''d4'', updatedAt := 40\<rparr>]\<rparr>))"
  using listActive_sorted_filter [of ex_user "ex_store\<lparr>documents := documents ex_store @ [ex_doc\<lparr>documentId := ''d4'', updatedAt := 40\<rparr>]\<rparr>"]
  by (simp add: listActive_def sort_cmp_def ex_store_def ex_doc_def ex_user_def)

lemma map_list_update_same:
  "f y = f (xs ! i) \<Longrightarrow> map f (xs[i := y]) = map f xs"
  by (cases "i < length xs") (simp_all add: map_update list_update_same_conv list_update_beyond)

lemma documents_restoreFromArchive:
  "documents (snd (restoreFromArchive e u b s)) = documents s
   \<or> (\<exists>i. documents (snd (restoreFromArchive e u b s)) =
          (documents s)[i := (documents s ! i)\<lparr>status := JStr ''private'', updatedAt := timestamp e\<rparr>])"
  by (auto simp: restoreFromArchive_def Let_def split: option.splits)

lemma restoreFromArchive_keeps:
  "map documentId (documents (snd (restoreFromArchive e u b s))) = map documentId (documents s)
   \<and> map userId (documents (snd (restoreFromArchive e u b s))) = map userId (documents s)"
  using documents_restoreFromArchive [of e u b s]
  by (auto simp: map_list_update_same)

lemma update_keeps:
  "map documentId (documents (snd (update e u d b s))) = map documentId (documents s)
   \<and> map userId (documents (snd (update e u d b s))) = map userId (documents s)"
  by (simp add: documents_update update_scalars_def map_list_update_same split: option.splits)

lemma set_sort_cmp: "set (sort_cmp cmp xs) = set xs"
  using mset_sort_cmp [of cmp xs] by (rule mset_eq_setD)

lemma mset_filter_split:
  "mset (filter (\<lambda>x. P x \<and> \<not> Q x) xs) + mset (filter (\<lambda>x. P x \<and> Q x) xs)
     = filter_mset P (mset xs)"
  by (induction xs) auto

text \<open>
  C6. For every store and every caller: no document that listActive returns is
  archived, every document that listArchived returns is archived, and both return only
  the caller's documents; no document is in both lists, and together they hold exactly
  the caller's documents, each as often as it is stored. No handler deletes a
  document: update and restoreFromArchive keep the documentId and the owner of every
  stored document in place, and create only appends.
\<close>

theorem listActive_listArchived_partition:
  "(\<forall>doc\<in>set (listActive u s). status doc \<noteq> JStr ''archived'' \<and> userId doc = user_id u)
   \<and> (\<forall>doc\<in>set (listArchived u s). status doc = JStr ''archived'' \<and> userId doc = user_id u)
   \<and> mset (listActive u s) + mset (listArchived u s)
       = filter_mset (\<lambda>doc. userId doc = user_id u) (mset (documents s))
   \<and> set (listActive u s) \<inter> set (listArchived u s) = {}
   \<and> map documentId (documents (snd (update e w d b s))) = map documentId (documents s)
   \<and> map userId (documents (snd (update e w d b s))) = map userId (documents s)
   \<and> map documentId (documents (snd (restoreFromArchive e w b s))) = map documentId (documents s)
   \<and> map userId (documents (snd (restoreFromArchive e w b s))) = map userId (documents s)
   \<and> documents (snd (create e w t s)) = documents s @ [fst (create e w t s)]"
proof -
  have active: "\<forall>doc\<in>set (listActive u s). status doc \<noteq> JStr ''archived'' \<and> userId doc = user_id u"
    by (simp add: listActive_def set_sort_cmp)
  have archived: "\<forall>doc\<in>set (listArchived u s). status doc = JStr ''archived'' \<and> userId doc = user_id u"
    by (simp add: listArchived_def)
  have parts: "mset (listActive u s) + mset (listArchived u s)
       = filter_mset (\<lambda>doc. userId doc = user_id u) (mset (documents s))"
    using mset_filter_split [of "\<lambda>doc. userId doc = user_id u" "\<lambda>doc. status doc = JStr ''archived''"
        "documents s"]
    by (simp add: listActive_def listArchived_def mset_sort_cmp)
  have disj: "set (listActive u s) \<inter> set (listArchived u s) = {}"
    using active archived by blast
  have created: "documents (snd (create e w t s)) = documents s @ [fst (create e w t s)]"
    by (simp add: create_def)
  show ?thesis
    using active archived parts disj created update_keeps [of e w d b s]
      restoreFromArchive_keeps [of e w b s]
    by blast
qed

theorem listActive_listArchived_partition_witness:
  "listActive ex_user ex_store = [documents ex_store ! 0]
   \<and> listArchived ex_user ex_store = [documents ex_store ! 1]
   \<and> filter (\<lambda>doc. userId doc = user_id ex_user) (documents ex_store)
       = [documents ex_store ! 0, documents ex_store ! 1]"
  using listActive_listArchived_partition [of ex_user ex_store ex_env ex_user "''d1''" JNull JNull]
  by (simp add: listActive_def listArchived_def sort_cmp_def ex_store_def ex_doc_def ex_user_def)




lemma doc_prop_update_scalars:
  "f \<in> set scalar_fields \<Longrightarrow>
   doc_prop (update_scalars e b d) f =
     (case get_prop b f of
        Some v \<Rightarrow> if truthy v then Some v else doc_prop d f
      | None \<Rightarrow> doc_prop d f)"
  by (auto simp: scalar_fields_def doc_prop_def update_scalars_def overwrite_def overwrite_opt_def
      split: option.splits)


lemma nth_documents_update:
  assumes "docId \<noteq> []"
    and "findIndex (\<lambda>doc. documentId doc = docId \<and> userId doc = user_id u) (documents s) = Some i"
  shows "documents (snd (update e u docId body s)) ! i =
     (if body = JNull then documents s ! i else update_scalars e body (documents s ! i))"
proof -
  have "i < length (documents s)"
    using assms(2) by (simp add: findIndex_Some)
  then show ?thesis
    using assms by (simp add: documents_update)
qed

text \<open>
  C1. For the document that the update handler finds for the caller, and each of the
  scalar members title, thumbnail, summary, themeColor, status and currentPosition: a
  truthy incoming value replaces the stored one; an incoming value that is not truthy,
  such as the empty string, 0 or false, leaves the stored value as it is, and so does a
  body that does not name the member.
\<close>

theorem update_truthy_only_overwrite:
  assumes "docId \<noteq> []"
    and "findIndex (\<lambda>doc. documentId doc = docId \<and> userId doc = user_id u) (documents s) = Some i"
    and "f \<in> set scalar_fields"
  shows "(\<forall>v. get_prop body f = Some v \<longrightarrow> truthy v \<longrightarrow>
            doc_prop (documents (snd (update e u docId body s)) ! i) f = Some v)
     \<and> (\<forall>v. get_prop body f = Some v \<longrightarrow> \<not> truthy v \<longrightarrow>
            doc_prop (documents (snd (update e u docId body s)) ! i) f = doc_prop (documents s ! i) f)
     \<and> (get_prop body f = None \<longrightarrow>
            doc_prop (documents (snd (update e u docId body s)) ! i) f = doc_prop (documents s ! i) f)
     \<and> (get_prop body f \<in> {Some (JStr []), Some (JNum 0), Some (JBool False)} \<longrightarrow>
            doc_prop (documents (snd (update e u docId body s)) ! i) f = doc_prop (documents s ! i) f)"
proof (cases "body = JNull")
  case True
  then show ?thesis
    using nth_documents_update [OF assms(1,2), of e body] by simp
next
  case False
  then have "doc_prop (documents (snd (update e u docId body s)) ! i) f =
     (case get_prop body f of
        Some v \<Rightarrow> if truthy v then Some v else doc_prop (documents s ! i) f
      | None \<Rightarrow> doc_prop (documents s ! i) f)"
    using nth_documents_update [OF assms(1,2), of e body] doc_prop_update_scalars [OF assms(3)]
    by simp
  then show ?thesis
    by auto
qed

theorem update_truthy_only_overwrite_witness:
  "doc_prop (documents (snd (update ex_env ex_user ''d1''
       (JObj [(''title'', JStr []), (''summary'', JStr ''short''), (''status'', JNum 0)]) ex_store)) ! 0) ''title''
     = Some (JStr ''cv'')
   \<and> doc_prop (documents (snd (update ex_env ex_user ''d1''
       (JObj [(''title'', JStr []), (''summary'', JStr ''short''), (''status'', JNum 0)]) ex_store)) ! 0) ''summary''
     = Some (JStr ''short'')
   \<and> doc_prop (documents (snd (update ex_env ex_user ''d1''
       (JObj [(''title'', JStr []), (''summary'', JStr ''short''), (''status'', JNum 0)]) ex_store)) ! 0) ''status''
     = Some (JStr ''private'')"
proof -
  let ?b = "JObj [(''title'', JStr []), (''summary'', JStr ''short''), (''status'', JNum 0)]"
  have found: "findIndex (\<lambda>doc. documentId doc = ''d1'' \<and> userId doc = user_id ex_user)
      (documents ex_store) = Some 0"
    by (simp add: ex_store_def ex_doc_def ex_user_def)
  have old: "doc_prop (documents ex_store ! 0) ''title'' = Some (JStr ''cv'')"
    "doc_prop (documents ex_store ! 0) ''status'' = Some (JStr ''private'')"
    by (simp_all add: ex_store_def ex_doc_def doc_prop_def)
  have ne: "''d1'' \<noteq> []" by simp
  have t: "doc_prop (documents (snd (update ex_env ex_user ''d1'' ?b ex_store)) ! 0) ''title''
      = Some (JStr ''cv'')"
    using update_truthy_only_overwrite [OF ne found, of "''title''" ?b ex_env] old
    by (simp add: scalar_fields_def)
  have su: "doc_prop (documents (snd (update ex_env ex_user ''d1'' ?b ex_store)) ! 0) ''summary''
      = Some (JStr ''short'')"
    using update_truthy_only_overwrite [OF ne found, of "''summary''" ?b ex_env]
    by (simp add: scalar_fields_def)
  have st: "doc_prop (documents (snd (update ex_env ex_user ''d1'' ?b ex_store)) ! 0) ''status''
      = Some (JStr ''private'')"
    using update_truthy_only_overwrite [OF ne found, of "''status''" ?b ex_env] old
    by (simp add: scalar_fields_def)
  from t su st show ?thesis by simp
qed
























lemma length_documents_update:
  "length (documents (snd (update e u d b s))) = length (documents s)"
  by (simp add: documents_update split: option.splits)

lemma updatedAt_update_scalars: "updatedAt (update_scalars e b doc) = timestamp e"
  by (simp add: update_scalars_def)

lemma updatedAt_update_nth:
  "j < length (documents s) \<Longrightarrow>
   updatedAt (documents (snd (update e u d b s)) ! j) = updatedAt (documents s ! j)
   \<or> updatedAt (documents (snd (update e u d b s)) ! j) = timestamp e"
proof (cases "findIndex (\<lambda>doc. documentId doc = d \<and> userId doc = user_id u) (documents s)")
  case None
  then show ?thesis by (simp add: documents_update)
next
  case (Some i)
  then have "i < length (documents s)"
    by (simp add: findIndex_Some)
  then show ?thesis
    using Some by (simp add: documents_update nth_list_update updatedAt_update_scalars)
qed

lemma updatedAt_update_set:
  assumes "doc' \<in> set (documents (snd (update e u d b s)))"
  shows "updatedAt doc' = timestamp e \<or> (\<exists>doc\<in>set (documents s). updatedAt doc' = updatedAt doc)"
proof -
  obtain j where j: "j < length (documents s)" and d: "doc' = documents (snd (update e u d b s)) ! j"
    using assms by (metis in_set_conv_nth length_documents_update)
  then show ?thesis
    using updatedAt_update_nth [OF j, of e u d b] nth_mem [OF j] by auto
qed

lemma updates_sorted_aux:
  "sorted (map (\<lambda>r. timestamp (fst r)) rs) \<Longrightarrow>
   \<forall>doc\<in>set (documents s). \<forall>r\<in>set rs. updatedAt doc \<le> timestamp (fst r) \<Longrightarrow>
   j < length (documents s) \<Longrightarrow>
   sorted (map (\<lambda>s'. updatedAt (documents s' ! j)) (updates rs s))
   \<and> (\<forall>s'\<in>set (updates rs s). updatedAt (documents s ! j) \<le> updatedAt (documents s' ! j))"
proof (induction rs arbitrary: s)
  case Nil
  then show ?case by simp
next
  case (Cons r rs)
  let ?s1 = "snd (update (fst r) (fst (snd r)) (fst (snd (snd r))) (snd (snd (snd r))) s)"
  have later: "\<forall>r'\<in>set rs. timestamp (fst r) \<le> timestamp (fst r')"
    using Cons.prems(1) by simp
  have old: "\<forall>doc\<in>set (documents s). updatedAt doc \<le> timestamp (fst r)"
    using Cons.prems(2) by simp
  have p1: "sorted (map (\<lambda>r. timestamp (fst r)) rs)"
    using Cons.prems(1) by simp
  have p2: "\<forall>doc\<in>set (documents ?s1). \<forall>r'\<in>set rs. updatedAt doc \<le> timestamp (fst r')"
  proof (intro ballI)
    fix doc' r'
    assume d: "doc' \<in> set (documents ?s1)" and r': "r' \<in> set rs"
    from updatedAt_update_set [OF d]
    show "updatedAt doc' \<le> timestamp (fst r')"
    proof
      assume "updatedAt doc' = timestamp (fst r)"
      then show ?thesis using later r' by simp
    next
      assume "\<exists>doc\<in>set (documents s). updatedAt doc' = updatedAt doc"
      then show ?thesis using Cons.prems(2) r' by auto
    qed
  qed
  have p3: "j < length (documents ?s1)"
    using Cons.prems(3) by (simp add: length_documents_update)
  note ih = Cons.IH [OF p1 p2 p3]
  have "updatedAt (documents s ! j) \<le> timestamp (fst r)"
    using old Cons.prems(3) nth_mem by blast
  then have step: "updatedAt (documents s ! j) \<le> updatedAt (documents ?s1 ! j)"
    using updatedAt_update_nth [OF Cons.prems(3), of "fst r" "fst (snd r)" "fst (snd (snd r))"
        "snd (snd (snd r))"]
    by auto
  have all: "\<forall>s'\<in>set (updates rs ?s1). updatedAt (documents s ! j) \<le> updatedAt (documents s' ! j)"
    using ih step by auto
  show ?case
    using ih all by simp
qed

lemma updatedAt_update_others:
  assumes "docId \<noteq> []"
    and "findIndex (\<lambda>doc. documentId doc = docId \<and> userId doc = user_id u) (documents s) = Some i"
    and "j < length (documents s)" and "j \<noteq> i"
  shows "updatedAt (documents (snd (update e u docId body s)) ! j) = updatedAt (documents s ! j)"
  using assms by (simp add: documents_update)

text \<open>
  C7, as amended. Every successful update sets the updatedAt of the document it found
  to the clock's reading of that request, whatever the body holds, also when no member
  passes the truthy test, and leaves the updatedAt of every other document as it is.
  The reading is not compared with the stored value: the document's updatedAt does not
  decrease in that update exactly when the reading is not before the stored value. So
  across a sequence of update requests whose clock readings do not go backwards and are
  not before the stored timestamps, the updatedAt of every document is non-decreasing
  from store to store.
\<close>

theorem update_refreshes_updatedAt:
  "(fst (update e u docId body s) = Inr () \<longrightarrow>
      (\<exists>i<length (documents s).
         findIndex (\<lambda>doc. documentId doc = docId \<and> userId doc = user_id u) (documents s) = Some i
         \<and> updatedAt (documents (snd (update e u docId body s)) ! i) = timestamp e
         \<and> (updatedAt (documents s ! i) \<le> updatedAt (documents (snd (update e u docId body s)) ! i)
              \<longleftrightarrow> updatedAt (documents s ! i) \<le> timestamp e)
         \<and> (\<forall>j<length (documents s). j \<noteq> i \<longrightarrow>
               updatedAt (documents (snd (update e u docId body s)) ! j) = updatedAt (documents s ! j))))
   \<and> (sorted (map (\<lambda>r. timestamp (fst r)) rs) \<longrightarrow>
      (\<forall>doc\<in>set (documents s). \<forall>r\<in>set rs. updatedAt doc \<le> timestamp (fst r)) \<longrightarrow>
      j < length (documents s) \<longrightarrow>
      sorted (map (\<lambda>s'. updatedAt (documents s' ! j)) (updates rs s)))"
proof -
  have refresh: "\<exists>i<length (documents s).
         findIndex (\<lambda>doc. documentId doc = docId \<and> userId doc = user_id u) (documents s) = Some i
         \<and> updatedAt (documents (snd (update e u docId body s)) ! i) = timestamp e
         \<and> (updatedAt (documents s ! i) \<le> updatedAt (documents (snd (update e u docId body s)) ! i)
              \<longleftrightarrow> updatedAt (documents s ! i) \<le> timestamp e)
         \<and> (\<forall>j<length (documents s). j \<noteq> i \<longrightarrow>
               updatedAt (documents (snd (update e u docId body s)) ! j) = updatedAt (documents s ! j))"
    if ok: "fst (update e u docId body s) = Inr ()"
  proof -
    have ne: "docId \<noteq> []"
      using ok by (auto simp: update_def)
    obtain i where i: "findIndex (\<lambda>doc. documentId doc = docId \<and> userId doc = user_id u)
        (documents s) = Some i"
      using ok ne by (cases "findIndex (\<lambda>doc. documentId doc = docId \<and> userId doc = user_id u)
        (documents s)") (auto simp: update_def)
    have nn: "body \<noteq> JNull"
      using ok ne i by (auto simp: update_def)
    have len: "i < length (documents s)"
      using i by (simp add: findIndex_Some)
    have stamp: "updatedAt (documents (snd (update e u docId body s)) ! i) = timestamp e"
      using nth_documents_update [OF ne i, of e body] nn by (simp add: updatedAt_update_scalars)
    have others: "\<forall>j<length (documents s). j \<noteq> i \<longrightarrow>
        updatedAt (documents (snd (update e u docId body s)) ! j) = updatedAt (documents s ! j)"
      using updatedAt_update_others [OF ne i] by blast
    show ?thesis
      using i len stamp others by auto
  qed
  show ?thesis
    using refresh updates_sorted_aux [of rs s j] by blast
qed

theorem update_refreshes_updatedAt_witness:
  "fst (update ex_env ex_user ''d1'' (JObj []) ex_store) = Inr ()
   \<and> updatedAt (documents (snd (update ex_env ex_user ''d1'' (JObj []) ex_store)) ! 0) = 50
   \<and> updatedAt (documents (snd (update ex_env ex_user ''d1'' (JObj []) ex_store)) ! 1) = 20
   \<and> map (\<lambda>s'. updatedAt (documents s' ! 0))
        (updates [(ex_env, ex_user, ''d1'', JObj []),
                  (ex_env\<lparr>timestamp := 60\<rparr>, ex_user, ''d1'', JObj [(''title'', JStr ''b'')])] ex_store)
       = [10, 50, 60]"
proof -
  let ?rs = "[(ex_env, ex_user, ''d1'', JObj []),
              (ex_env\<lparr>timestamp := 60\<rparr>, ex_user, ''d1'', JObj [(''title'', JStr ''b'')])]"
  have ok: "fst (update ex_env ex_user ''d1'' (JObj []) ex_store) = Inr ()"
    by (simp add: update_def fst_update_found update_collection_def ex_store_def ex_doc_def
        ex_user_def)
  have found: "findIndex (\<lambda>doc. documentId doc = ''d1'' \<and> userId doc = user_id ex_user)
      (documents ex_store) = Some 0"
    by (simp add: ex_store_def ex_doc_def ex_user_def)
  have len: "0 < length (documents ex_store)" "1 < length (documents ex_store)"
    by (simp_all add: ex_store_def)
  have old: "updatedAt (documents ex_store ! 1) = 20"
    by (simp add: ex_store_def ex_doc_def)
  have a: "updatedAt (documents (snd (update ex_env ex_user ''d1'' (JObj []) ex_store)) ! 0) = 50
      \<and> updatedAt (documents (snd (update ex_env ex_user ''d1'' (JObj []) ex_store)) ! 1) = 20"
    using update_refreshes_updatedAt [where e = ex_env and u = ex_user and docId = "''d1''"
        and body = "JObj []" and s = ex_store, THEN conjunct1] ok found len old
    by (auto simp: ex_env_def)
  have srt: "sorted (map (\<lambda>r. timestamp (fst r)) ?rs)"
    by (simp add: ex_env_def)
  have past: "\<forall>doc\<in>set (documents ex_store). \<forall>r\<in>set ?rs. updatedAt doc \<le> timestamp (fst r)"
    by (simp add: ex_store_def ex_doc_def ex_env_def)
  have "sorted (map (\<lambda>s'. updatedAt (documents s' ! 0)) (updates ?rs ex_store))"
    using update_refreshes_updatedAt [where rs = ?rs and s = ex_store and j = 0, THEN conjunct2]
      srt past len
    by blast
  moreover have "map (\<lambda>s'. updatedAt (documents s' ! 0)) (updates ?rs ex_store) = [10, 50, 60]"
    by (simp add: documents_update update_scalars_def ex_store_def ex_doc_def ex_user_def ex_env_def)
  ultimately show ?thesis
    using ok a by simp
qed

text \<open>
  C7 as stated fails when the clock is set back between two requests: two successful
  updates of document 1, the first reading 50 and the second reading 5, take its
  updatedAt from 10 to 50 and then down to 5.
\<close>

theorem update_clock_backwards_counterexample:
  "fst (update ex_env ex_user ''d1'' (JObj []) ex_store) = Inr ()
   \<and> fst (update (ex_env\<lparr>timestamp := 5\<rparr>) ex_user ''d1'' (JObj [])
          (snd (update ex_env ex_user ''d1'' (JObj []) ex_store))) = Inr ()
   \<and> updatedAt (documents ex_store ! 0) = 10
   \<and> updatedAt (documents (snd (update ex_env ex_user ''d1'' (JObj []) ex_store)) ! 0) = 50
   \<and> updatedAt (documents (snd (update (ex_env\<lparr>timestamp := 5\<rparr>) ex_user ''d1'' (JObj [])
          (snd (update ex_env ex_user ''d1'' (JObj []) ex_store)))) ! 0) = 5"
  by (simp add: update_def fst_update_found documents_update_found update_collection_def
      update_scalars_def ex_store_def ex_doc_def ex_user_def ex_env_def)

end
